theory Spec2Isabelle
  imports Main "HOL-Library.Word"
begin

section \<open>The preprocessor as far as the two shims use it\<close>

text \<open>
  \<^verbatim>\<open>Sources/CPrintTrace/shim.h\<close> and \<^verbatim>\<open>Sources/CPrintTrace/ios_shim.h\<close> consist of
  preprocessor directives only: an include guard (\<^verbatim>\<open>#ifndef\<close>, \<^verbatim>\<open>#define\<close>), one
  conditional (\<^verbatim>\<open>#if\<close> \<dots> \<^verbatim>\<open>#else\<close> \<dots> \<^verbatim>\<open>#endif\<close>) and, in its two groups, one
  \<^verbatim>\<open>#import\<close> and one \<^verbatim>\<open>#include\<close>. Each directive becomes a function on the state of
  the preprocessor, and each header the composition of its directives.

  A macro of the table is an object-like macro whose replacement list is empty (what
  \<^verbatim>\<open>#define CPRINTTRACE_SHIM_H\<close> makes) or one integer constant (what
  \<^verbatim>\<open>TargetConditionals.h\<close> and \<^verbatim>\<open>-DNAME\<close>, \<^verbatim>\<open>-DNAME=1\<close> make). The preprocessor
  evaluates the controlling expression of \<^verbatim>\<open>#if\<close> in \<^verbatim>\<open>intmax_t\<close> and \<^verbatim>\<open>uintmax_t\<close>, which
  have 64 bits, so an integer constant is held as a 64-bit word: the value the preprocessor
  computes with. A constant written with more bits has the value of its low 64 bits there
  (\<^verbatim>\<open>18446744073709551616\<close>, which is \<open>2 ^ 64\<close>, is the word 0).
\<close>

datatype macro_body = Empty_Body | Int_Body "64 word"

type_synonym macro_table = "string \<rightharpoonup> macro_body"

text \<open>The two directives that bring a header in, each with the path between its angle brackets.\<close>

datatype include_directive = Import string | Include string

fun directive_path :: "include_directive \<Rightarrow> string" where
  "directive_path (Import p) = p"
| "directive_path (Include p) = p"

text \<open>
  The diagnostics that end a compilation here: a header that is on no search path, and a
  controlling expression of \<^verbatim>\<open>#if\<close> that is no expression after macro replacement.
\<close>

datatype pp_error = File_Not_Found string | Bad_If_Expression

text \<open>
  The PrintTrace API header is not part of the repository. The search path maps the path of
  a header that can be found to the declarations it makes visible; a path it does not map
  is a header that cannot be found.
\<close>

type_synonym search_path = "string \<rightharpoonup> string list"

text \<open>
  The state of the preprocessor inside a translation unit: the macro table, the set of
  declarations visible so far, and the include directives executed so far, in order.
\<close>

record pp_state =
  macros :: macro_table
  decls :: "string set"
  trace :: "include_directive list"

text \<open>A translation unit starts with the macros of the build configuration and nothing else.\<close>

definition translation_unit :: "macro_table \<Rightarrow> pp_state" where
  "translation_unit m = \<lparr>macros = m, decls = {}, trace = []\<rparr>"

subsection \<open>Directives\<close>

text \<open>\<^verbatim>\<open>#define NAME\<close> with an empty replacement list.\<close>

definition pp_define :: "string \<Rightarrow> pp_state \<Rightarrow> pp_state" where
  "pp_define n s = s\<lparr>macros := (macros s)(n \<mapsto> Empty_Body)\<rparr>"

text \<open>\<^verbatim>\<open>#ifndef NAME\<close> \<dots> \<^verbatim>\<open>#endif\<close>: the group is processed when the name is no macro, and skipped otherwise.\<close>

definition pp_ifndef :: "string \<Rightarrow> (pp_state \<Rightarrow> pp_error + pp_state) \<Rightarrow> pp_state \<Rightarrow> pp_error + pp_state" where
  "pp_ifndef n body s = (if macros s n = None then body s else Inr s)"

text \<open>
  An identifier in the controlling expression of \<^verbatim>\<open>#if\<close>: a macro is replaced by its
  body, and an identifier that is no macro counts as 0. An empty body leaves an operand of
  \<^verbatim>\<open>||\<close> missing, which is an error wherever it stands.
\<close>

definition pp_ident :: "macro_table \<Rightarrow> string \<Rightarrow> pp_error + 64 word" where
  "pp_ident m n =
     (case m n of
        None \<Rightarrow> Inr 0
      | Some Empty_Body \<Rightarrow> Inl Bad_If_Expression
      | Some (Int_Body v) \<Rightarrow> Inr v)"

text \<open>The operator \<^verbatim>\<open>||\<close>: 1 when an operand is not 0, and 0 otherwise.\<close>

definition pp_or :: "pp_error + 64 word \<Rightarrow> pp_error + 64 word \<Rightarrow> pp_error + 64 word" where
  "pp_or a b =
     (case a of
        Inl e \<Rightarrow> Inl e
      | Inr x \<Rightarrow>
          (case b of
             Inl e \<Rightarrow> Inl e
           | Inr y \<Rightarrow> Inr (if x = 0 \<and> y = 0 then 0 else 1)))"

text \<open>
  \<^verbatim>\<open>#if c\<close> \<dots> \<^verbatim>\<open>#else\<close> \<dots> \<^verbatim>\<open>#endif\<close> keeps the first group when the expression is not 0
  and the second group when it is 0.
\<close>

definition pp_if :: "pp_error + 64 word \<Rightarrow> 'a \<Rightarrow> 'a \<Rightarrow> pp_error + 'a" where
  "pp_if c if_group else_group =
     (case c of
        Inl e \<Rightarrow> Inl e
      | Inr v \<Rightarrow> Inr (if v = 0 then else_group else if_group))"

text \<open>
  Executing \<^verbatim>\<open>#import <p>\<close> or \<^verbatim>\<open>#include <p>\<close>: a header that is not found ends the
  compilation; one that is found makes its declarations visible. \<^verbatim>\<open>#import\<close> differs from
  \<^verbatim>\<open>#include\<close> in entering the text of a header at most once, which the set of visible
  declarations does not show; the trace keeps which of the two was executed.
\<close>

definition pp_exec :: "search_path \<Rightarrow> include_directive \<Rightarrow> pp_state \<Rightarrow> pp_error + pp_state" where
  "pp_exec sp d s =
     (case sp (directive_path d) of
        None \<Rightarrow> Inl (File_Not_Found (directive_path d))
      | Some ds \<Rightarrow> Inr (s\<lparr>decls := decls s \<union> set ds, trace := trace s @ [d]\<rparr>))"

section \<open>shim.h\<close>

text \<open>
  Lines 4 to 10: the conditional keeps one of the two directives.
  \<^verbatim>\<open>
  #if TARGET_OS_IOS || TARGET_OS_TV || TARGET_OS_WATCH
  #import <PrintTrace/PrintTraceAPI.h>
  #else
  #include <PrintTraceAPI.h>
  #endif
  \<close>
\<close>

definition shim_h_selection :: "macro_table \<Rightarrow> pp_error + include_directive" where
  "shim_h_selection m =
     pp_if (pp_or (pp_or (pp_ident m ''TARGET_OS_IOS'') (pp_ident m ''TARGET_OS_TV''))
                  (pp_ident m ''TARGET_OS_WATCH''))
       (Import ''PrintTrace/PrintTraceAPI.h'')
       (Include ''PrintTraceAPI.h'')"

text \<open>The directive that is kept is executed.\<close>

definition shim_h_conditional :: "search_path \<Rightarrow> pp_state \<Rightarrow> pp_error + pp_state" where
  "shim_h_conditional sp s =
     (case shim_h_selection (macros s) of
        Inl e \<Rightarrow> Inl e
      | Inr d \<Rightarrow> pp_exec sp d s)"

text \<open>
  The whole header, lines 1 to 12: the conditional stands inside the include guard
  \<^verbatim>\<open>CPRINTTRACE_SHIM_H\<close>, after its \<^verbatim>\<open>#define\<close>.
\<close>

definition shim_h :: "search_path \<Rightarrow> pp_state \<Rightarrow> pp_error + pp_state" where
  "shim_h sp =
     pp_ifndef ''CPRINTTRACE_SHIM_H''
       (\<lambda>s. shim_h_conditional sp (pp_define ''CPRINTTRACE_SHIM_H'' s))"

section \<open>ios\_shim.h\<close>

text \<open>Lines 5 to 15: the same conditional, with comments and blank lines between its directives.\<close>

definition ios_shim_h_selection :: "macro_table \<Rightarrow> pp_error + include_directive" where
  "ios_shim_h_selection m =
     pp_if (pp_or (pp_or (pp_ident m ''TARGET_OS_IOS'') (pp_ident m ''TARGET_OS_TV''))
                  (pp_ident m ''TARGET_OS_WATCH''))
       (Import ''PrintTrace/PrintTraceAPI.h'')
       (Include ''PrintTraceAPI.h'')"

definition ios_shim_h_conditional :: "search_path \<Rightarrow> pp_state \<Rightarrow> pp_error + pp_state" where
  "ios_shim_h_conditional sp s =
     (case ios_shim_h_selection (macros s) of
        Inl e \<Rightarrow> Inl e
      | Inr d \<Rightarrow> pp_exec sp d s)"

text \<open>Lines 1 to 17: the include guard is \<^verbatim>\<open>CPRINTTRACE_IOS_SHIM_H\<close>.\<close>

definition ios_shim_h :: "search_path \<Rightarrow> pp_state \<Rightarrow> pp_error + pp_state" where
  "ios_shim_h sp =
     pp_ifndef ''CPRINTTRACE_IOS_SHIM_H''
       (\<lambda>s. ios_shim_h_conditional sp (pp_define ''CPRINTTRACE_IOS_SHIM_H'' s))"

section \<open>Including a header several times\<close>

text \<open>
  A translation unit that includes a header \<open>n\<close> times in a row; the first error ends the
  compilation.
\<close>

fun include_times :: "nat \<Rightarrow> (pp_state \<Rightarrow> pp_error + pp_state) \<Rightarrow> pp_state \<Rightarrow> pp_error + pp_state" where
  "include_times 0 hdr s = Inr s"
| "include_times (Suc n) hdr s =
     (case hdr s of
        Inl e \<Rightarrow> Inl e
      | Inr s' \<Rightarrow> include_times n hdr s')"

section \<open>The vocabulary of the specification\<close>

text \<open>
  A platform flag is set when it is a macro with a value other than 0 in the 64 bits of the
  preprocessor; the specification's
  \<open>isAppleMobilePlatform = iOS || tvOS || watchOS\<close> is the disjunction of the three flags.
\<close>

definition flag_set :: "macro_table \<Rightarrow> string \<Rightarrow> bool" where
  "flag_set m n = (case m n of Some (Int_Body v) \<Rightarrow> v \<noteq> 0 | _ \<Rightarrow> False)"

definition isAppleMobilePlatform :: "macro_table \<Rightarrow> bool" where
  "isAppleMobilePlatform m =
     (flag_set m ''TARGET_OS_IOS'' \<or> flag_set m ''TARGET_OS_TV'' \<or> flag_set m ''TARGET_OS_WATCH'')"

text \<open>
  A platform flag configuration gives each of the three flags a truth value: the flag is no
  macro, or a macro with an integer value.
\<close>

definition platform_flags :: "macro_table \<Rightarrow> bool" where
  "platform_flags m =
     (m ''TARGET_OS_IOS'' \<noteq> Some Empty_Body \<and> m ''TARGET_OS_TV'' \<noteq> Some Empty_Body \<and>
      m ''TARGET_OS_WATCH'' \<noteq> Some Empty_Body)"

text \<open>The two outputs of the selection, under the names the specification gives them.\<close>

abbreviation framework_style_import :: include_directive where
  "framework_style_import \<equiv> Import ''PrintTrace/PrintTraceAPI.h''"

abbreviation plain_include :: include_directive where
  "plain_include \<equiv> Include ''PrintTraceAPI.h''"

text \<open>Build configurations to evaluate the headers on.\<close>

definition ios_build :: macro_table where
  "ios_build = [''TARGET_OS_IOS'' \<mapsto> Int_Body 1, ''TARGET_OS_TV'' \<mapsto> Int_Body 0,
     ''TARGET_OS_WATCH'' \<mapsto> Int_Body 0]"

definition macos_build :: macro_table where
  "macos_build = [''TARGET_OS_OSX'' \<mapsto> Int_Body 1, ''TARGET_OS_IOS'' \<mapsto> Int_Body 0,
     ''TARGET_OS_TV'' \<mapsto> Int_Body 0, ''TARGET_OS_WATCH'' \<mapsto> Int_Body 0]"

definition linux_build :: macro_table where
  "linux_build = [''__linux__'' \<mapsto> Int_Body 1]"

definition both_headers :: search_path where
  "both_headers = [''PrintTrace/PrintTraceAPI.h'' \<mapsto> [''print_trace_process''],
     ''PrintTraceAPI.h'' \<mapsto> [''print_trace_process'']]"

definition plain_header_only :: search_path where
  "plain_header_only = [''PrintTraceAPI.h'' \<mapsto> [''print_trace_process'']]"

text \<open>A state further down a translation unit of an iOS build.\<close>

definition later_in_unit :: pp_state where
  "later_in_unit = \<lparr>macros = ios_build(''NDEBUG'' \<mapsto> Empty_Body), decls = {''printf''},
     trace = [Include ''stdio.h'']\<rparr>"

text \<open>The same for a macOS build.\<close>

definition later_in_macos_unit :: pp_state where
  "later_in_macos_unit = \<lparr>macros = macos_build(''NDEBUG'' \<mapsto> Empty_Body),
     decls = {''printf''}, trace = [Include ''stdio.h'']\<rparr>"

text \<open>A build with \<^verbatim>\<open>-DTARGET_OS_IOS=18446744073709551616\<close>, a constant of 65 bits.\<close>

definition overflowing_build :: macro_table where
  "overflowing_build = [''TARGET_OS_IOS'' \<mapsto> Int_Body (2 ^ 64)]"

section \<open>The selection\<close>

text \<open>
  On a platform flag configuration the controlling expression has a value, and the
  directive that is kept is the one the specification's formula names.
\<close>

lemma pp_ident_flag:
  "m n \<noteq> Some Empty_Body \<Longrightarrow> \<exists>v. pp_ident m n = Inr v \<and> (v \<noteq> 0) = flag_set m n"
  by (cases "m n") (auto simp: pp_ident_def flag_set_def split: macro_body.splits)

lemma shim_h_selection_flags:
  assumes "platform_flags m"
  shows "shim_h_selection m =
    Inr (if isAppleMobilePlatform m then framework_style_import else plain_include)"
proof -
  obtain a where a: "pp_ident m ''TARGET_OS_IOS'' = Inr a" "(a \<noteq> 0) = flag_set m ''TARGET_OS_IOS''"
    using assms pp_ident_flag [of m "''TARGET_OS_IOS''"] by (auto simp: platform_flags_def)
  obtain b where b: "pp_ident m ''TARGET_OS_TV'' = Inr b" "(b \<noteq> 0) = flag_set m ''TARGET_OS_TV''"
    using assms pp_ident_flag [of m "''TARGET_OS_TV''"] by (auto simp: platform_flags_def)
  obtain c where c: "pp_ident m ''TARGET_OS_WATCH'' = Inr c" "(c \<noteq> 0) = flag_set m ''TARGET_OS_WATCH''"
    using assms pp_ident_flag [of m "''TARGET_OS_WATCH''"] by (auto simp: platform_flags_def)
  from a(2) b(2) c(2) have "isAppleMobilePlatform m = (\<not> (a = 0 \<and> b = 0 \<and> c = 0))"
    by (auto simp: isAppleMobilePlatform_def)
  then show ?thesis
    by (simp add: shim_h_selection_def pp_if_def pp_or_def a(1) b(1) c(1))
qed

text \<open>
  A flag that is a macro with an empty body is no platform flag configuration: the
  expression is ill-formed and neither directive is kept.
\<close>

lemma empty_flag_is_an_error:
  assumes "m ''TARGET_OS_IOS'' = Some Empty_Body \<or> m ''TARGET_OS_TV'' = Some Empty_Body \<or>
    m ''TARGET_OS_WATCH'' = Some Empty_Body"
  shows "shim_h_selection m = Inl Bad_If_Expression"
  using assms
  by (auto simp: shim_h_selection_def pp_if_def pp_or_def pp_ident_def
      split: option.splits macro_body.splits)

text \<open>
  The selection reads the three flags and nothing else of the macro table; defining an
  include guard does not change it.
\<close>

lemma selection_flags_only:
  assumes "m1 ''TARGET_OS_IOS'' = m2 ''TARGET_OS_IOS''"
    and "m1 ''TARGET_OS_TV'' = m2 ''TARGET_OS_TV''"
    and "m1 ''TARGET_OS_WATCH'' = m2 ''TARGET_OS_WATCH''"
  shows "shim_h_selection m1 = shim_h_selection m2"
  using assms by (simp add: shim_h_selection_def pp_ident_def)

lemma ios_selection_is_selection: "ios_shim_h_selection m = shim_h_selection m"
  by (simp add: shim_h_selection_def ios_shim_h_selection_def)

lemma selection_after_shim_guard:
  "shim_h_selection (macros (pp_define ''CPRINTTRACE_SHIM_H'' s)) = shim_h_selection (macros s)"
  by (rule selection_flags_only) (simp_all add: pp_define_def)

lemma selection_after_ios_shim_guard:
  "shim_h_selection (macros (pp_define ''CPRINTTRACE_IOS_SHIM_H'' s)) = shim_h_selection (macros s)"
  by (rule selection_flags_only) (simp_all add: pp_define_def)

section \<open>Executing the directive that is kept\<close>

lemma pp_exec_Inr:
  "(pp_exec sp d s = Inr s') =
     (\<exists>ds. sp (directive_path d) = Some ds \<and>
        s' = s\<lparr>decls := decls s \<union> set ds, trace := trace s @ [d]\<rparr>)"
  by (auto simp: pp_exec_def split: option.splits)

lemma pp_exec_Inl:
  "(pp_exec sp d s = Inl e) = (sp (directive_path d) = None \<and> e = File_Not_Found (directive_path d))"
  by (auto simp: pp_exec_def split: option.splits)

lemma pp_exec_trace: "pp_exec sp d s = Inr s' \<Longrightarrow> trace s' = trace s @ [d]"
  by (auto simp: pp_exec_Inr)

text \<open>
  The two directives never have the same outcome: the diagnostics name different headers,
  and the traces end in different directives.
\<close>

lemma pp_exec_branches_differ:
  "pp_exec sp framework_style_import s \<noteq> pp_exec sp plain_include s"
proof
  assume eq: "pp_exec sp framework_style_import s = pp_exec sp plain_include s"
  show False
  proof (cases "pp_exec sp framework_style_import s")
    case (Inl e)
    moreover from Inl eq have "pp_exec sp plain_include s = Inl e" by simp
    ultimately have "e = File_Not_Found ''PrintTrace/PrintTraceAPI.h''"
      and "e = File_Not_Found ''PrintTraceAPI.h''"
      by (simp_all add: pp_exec_Inl)
    then show False by simp
  next
    case (Inr s')
    from pp_exec_trace [OF Inr] have a: "trace s' = trace s @ [framework_style_import]" .
    from Inr eq have "pp_exec sp plain_include s = Inr s'" by simp
    from pp_exec_trace [OF this] have "trace s' = trace s @ [plain_include]" .
    with a show False by simp
  qed
qed

lemma shim_h_conditional_flags:
  assumes "platform_flags (macros s)"
  shows "shim_h_conditional sp s =
    pp_exec sp (if isAppleMobilePlatform (macros s) then framework_style_import else plain_include) s"
  by (simp add: shim_h_conditional_def shim_h_selection_flags [OF assms])

lemma ios_shim_h_conditional_flags:
  assumes "platform_flags (macros s)"
  shows "ios_shim_h_conditional sp s =
    pp_exec sp (if isAppleMobilePlatform (macros s) then framework_style_import else plain_include) s"
  by (simp add: ios_shim_h_conditional_def ios_selection_is_selection
      shim_h_selection_flags [OF assms])

section \<open>The include guards\<close>

text \<open>
  The first inclusion of a header, its guard not yet defined, defines the guard and runs
  the conditional; an inclusion with the guard defined changes nothing.
\<close>

lemma shim_h_first_inclusion:
  assumes "macros s ''CPRINTTRACE_SHIM_H'' = None"
  shows "shim_h sp s =
    (case shim_h_selection (macros s) of
       Inl e \<Rightarrow> Inl e
     | Inr d \<Rightarrow> pp_exec sp d (pp_define ''CPRINTTRACE_SHIM_H'' s))"
  using assms
  by (simp add: shim_h_def pp_ifndef_def shim_h_conditional_def selection_after_shim_guard)

lemma ios_shim_h_first_inclusion:
  assumes "macros s ''CPRINTTRACE_IOS_SHIM_H'' = None"
  shows "ios_shim_h sp s =
    (case shim_h_selection (macros s) of
       Inl e \<Rightarrow> Inl e
     | Inr d \<Rightarrow> pp_exec sp d (pp_define ''CPRINTTRACE_IOS_SHIM_H'' s))"
  using assms
  by (simp add: ios_shim_h_def pp_ifndef_def ios_shim_h_conditional_def
      ios_selection_is_selection selection_after_ios_shim_guard)

lemma shim_h_later_inclusion:
  "macros s ''CPRINTTRACE_SHIM_H'' \<noteq> None \<Longrightarrow> shim_h sp s = Inr s"
  by (auto simp: shim_h_def pp_ifndef_def)

lemma ios_shim_h_later_inclusion:
  "macros s ''CPRINTTRACE_IOS_SHIM_H'' \<noteq> None \<Longrightarrow> ios_shim_h sp s = Inr s"
  by (auto simp: ios_shim_h_def pp_ifndef_def)

lemma shim_h_defines_guard:
  assumes "shim_h sp s = Inr s'"
  shows "macros s' ''CPRINTTRACE_SHIM_H'' \<noteq> None"
proof (cases "macros s ''CPRINTTRACE_SHIM_H'' = None")
  case True
  with assms show ?thesis
    by (auto simp: shim_h_first_inclusion pp_exec_Inr pp_define_def split: sum.splits)
next
  case False
  with assms show ?thesis by (simp add: shim_h_later_inclusion)
qed

lemma ios_shim_h_defines_guard:
  assumes "ios_shim_h sp s = Inr s'"
  shows "macros s' ''CPRINTTRACE_IOS_SHIM_H'' \<noteq> None"
proof (cases "macros s ''CPRINTTRACE_IOS_SHIM_H'' = None")
  case True
  with assms show ?thesis
    by (auto simp: ios_shim_h_first_inclusion pp_exec_Inr pp_define_def split: sum.splits)
next
  case False
  with assms show ?thesis by (simp add: ios_shim_h_later_inclusion)
qed

lemma shim_h_later_is_noop: "shim_h sp s = Inr s' \<Longrightarrow> shim_h sp s' = Inr s'"
  by (rule shim_h_later_inclusion) (rule shim_h_defines_guard)

lemma ios_shim_h_later_is_noop: "ios_shim_h sp s = Inr s' \<Longrightarrow> ios_shim_h sp s' = Inr s'"
  by (rule ios_shim_h_later_inclusion) (rule ios_shim_h_defines_guard)

text \<open>
  A header whose successful inclusion makes the next one a no-op can be included any
  number of times.
\<close>

lemma include_times_guarded:
  assumes guard: "\<And>s s'. hdr s = Inr s' \<Longrightarrow> hdr s' = Inr s'"
  shows "include_times (Suc n) hdr s = hdr s"
proof (induction n arbitrary: s)
  case 0
  show ?case by (simp split: sum.splits)
next
  case (Suc n)
  show ?case
  proof (cases "hdr s")
    case (Inl e)
    then show ?thesis by simp
  next
    case (Inr s')
    have "include_times (Suc (Suc n)) hdr s = include_times (Suc n) hdr s'"
      using Inr by simp
    also have "\<dots> = hdr s'" by (rule Suc.IH)
    also have "\<dots> = Inr s'" by (rule guard [OF Inr])
    finally show ?thesis using Inr by simp
  qed
qed

text \<open>
  The state after a successful first inclusion: the guard is defined, the declarations of
  the selected header are visible, and the trace has the selected directive at its end.
\<close>

lemma shim_h_first_result:
  assumes "macros s ''CPRINTTRACE_SHIM_H'' = None" and "shim_h sp s = Inr s'"
  shows "\<exists>d ds. shim_h_selection (macros s) = Inr d \<and> sp (directive_path d) = Some ds \<and>
    s' = \<lparr>macros = (macros s)(''CPRINTTRACE_SHIM_H'' \<mapsto> Empty_Body),
          decls = decls s \<union> set ds, trace = trace s @ [d]\<rparr>"
  using assms(2)
  by (auto simp: shim_h_first_inclusion [OF assms(1)] pp_exec_Inr pp_define_def
      split: sum.splits)

lemma ios_shim_h_first_result:
  assumes "macros s ''CPRINTTRACE_IOS_SHIM_H'' = None" and "ios_shim_h sp s = Inr s'"
  shows "\<exists>d ds. shim_h_selection (macros s) = Inr d \<and> sp (directive_path d) = Some ds \<and>
    s' = \<lparr>macros = (macros s)(''CPRINTTRACE_IOS_SHIM_H'' \<mapsto> Empty_Body),
          decls = decls s \<union> set ds, trace = trace s @ [d]\<rparr>"
  using assms(2)
  by (auto simp: ios_shim_h_first_inclusion [OF assms(1)] pp_exec_Inr pp_define_def
      split: sum.splits)

text \<open>
  Either header, included first, leaves the guard of the other undefined and the flags as
  they were.
\<close>

lemma ios_shim_h_after_shim_h:
  assumes g: "macros s ''CPRINTTRACE_SHIM_H'' = None"
    and gi: "macros s ''CPRINTTRACE_IOS_SHIM_H'' = None"
    and run: "shim_h sp s = Inr s1"
  shows "macros s1 ''CPRINTTRACE_IOS_SHIM_H'' = None \<and>
    (\<exists>d s2. ios_shim_h_selection (macros s) = Inr d \<and> ios_shim_h sp s1 = Inr s2 \<and>
       trace s2 = trace s1 @ [d] \<and>
       macros s2 = (macros s1)(''CPRINTTRACE_IOS_SHIM_H'' \<mapsto> Empty_Body))"
proof -
  from shim_h_first_result [OF g run] obtain d ds
    where d: "shim_h_selection (macros s) = Inr d"
      and ds: "sp (directive_path d) = Some ds"
      and s1: "s1 = \<lparr>macros = (macros s)(''CPRINTTRACE_SHIM_H'' \<mapsto> Empty_Body),
          decls = decls s \<union> set ds, trace = trace s @ [d]\<rparr>"
    by blast
  have gi1: "macros s1 ''CPRINTTRACE_IOS_SHIM_H'' = None"
    using gi by (simp add: s1)
  have "shim_h_selection (macros s1) = shim_h_selection (macros s)"
    by (rule selection_flags_only) (simp_all add: s1)
  with d have d1: "shim_h_selection (macros s1) = Inr d" by simp
  have "ios_shim_h sp s1 =
      Inr ((pp_define ''CPRINTTRACE_IOS_SHIM_H'' s1)
        \<lparr>decls := decls (pp_define ''CPRINTTRACE_IOS_SHIM_H'' s1) \<union> set ds,
         trace := trace (pp_define ''CPRINTTRACE_IOS_SHIM_H'' s1) @ [d]\<rparr>)"
    by (simp add: ios_shim_h_first_inclusion [OF gi1] d1 pp_exec_def ds)
  then show ?thesis
    using gi1 d by (simp add: ios_selection_is_selection pp_define_def)
qed

lemma shim_h_after_ios_shim_h:
  assumes g: "macros s ''CPRINTTRACE_SHIM_H'' = None"
    and gi: "macros s ''CPRINTTRACE_IOS_SHIM_H'' = None"
    and run: "ios_shim_h sp s = Inr s1"
  shows "macros s1 ''CPRINTTRACE_SHIM_H'' = None \<and>
    (\<exists>d s2. shim_h_selection (macros s) = Inr d \<and> shim_h sp s1 = Inr s2 \<and>
       trace s2 = trace s1 @ [d] \<and>
       macros s2 = (macros s1)(''CPRINTTRACE_SHIM_H'' \<mapsto> Empty_Body))"
proof -
  from ios_shim_h_first_result [OF gi run] obtain d ds
    where d: "shim_h_selection (macros s) = Inr d"
      and ds: "sp (directive_path d) = Some ds"
      and s1: "s1 = \<lparr>macros = (macros s)(''CPRINTTRACE_IOS_SHIM_H'' \<mapsto> Empty_Body),
          decls = decls s \<union> set ds, trace = trace s @ [d]\<rparr>"
    by blast
  have g1: "macros s1 ''CPRINTTRACE_SHIM_H'' = None"
    using g by (simp add: s1)
  have "shim_h_selection (macros s1) = shim_h_selection (macros s)"
    by (rule selection_flags_only) (simp_all add: s1)
  with d have d1: "shim_h_selection (macros s1) = Inr d" by simp
  have "shim_h sp s1 =
      Inr ((pp_define ''CPRINTTRACE_SHIM_H'' s1)
        \<lparr>decls := decls (pp_define ''CPRINTTRACE_SHIM_H'' s1) \<union> set ds,
         trace := trace (pp_define ''CPRINTTRACE_SHIM_H'' s1) @ [d]\<rparr>)"
    by (simp add: shim_h_first_inclusion [OF g1] d1 pp_exec_def ds)
  then show ?thesis
    using g1 d by (simp add: pp_define_def)
qed

section \<open>The headers on an iOS build and on a macOS build\<close>

lemma shim_h_ios_run:
  "shim_h both_headers (translation_unit ios_build) =
     Inr \<lparr>macros = ios_build(''CPRINTTRACE_SHIM_H'' \<mapsto> Empty_Body),
          decls = {''print_trace_process''}, trace = [framework_style_import]\<rparr>"
proof -
  have g: "macros (translation_unit ios_build) ''CPRINTTRACE_SHIM_H'' = None"
    by (simp add: translation_unit_def ios_build_def)
  have a: "shim_h_selection (macros (translation_unit ios_build)) = Inr framework_style_import"
    by (simp add: shim_h_selection_def pp_if_def pp_or_def pp_ident_def translation_unit_def
        ios_build_def)
  show ?thesis
    by (simp add: shim_h_first_inclusion [OF g] a)
      (simp add: pp_exec_def pp_define_def both_headers_def translation_unit_def)
qed

lemma ios_shim_h_ios_run:
  "ios_shim_h both_headers (translation_unit ios_build) =
     Inr \<lparr>macros = ios_build(''CPRINTTRACE_IOS_SHIM_H'' \<mapsto> Empty_Body),
          decls = {''print_trace_process''}, trace = [framework_style_import]\<rparr>"
proof -
  have g: "macros (translation_unit ios_build) ''CPRINTTRACE_IOS_SHIM_H'' = None"
    by (simp add: translation_unit_def ios_build_def)
  have a: "shim_h_selection (macros (translation_unit ios_build)) = Inr framework_style_import"
    by (simp add: shim_h_selection_def pp_if_def pp_or_def pp_ident_def translation_unit_def
        ios_build_def)
  show ?thesis
    by (simp add: ios_shim_h_first_inclusion [OF g] a)
      (simp add: pp_exec_def pp_define_def both_headers_def translation_unit_def)
qed

lemma shim_h_macos_run:
  "shim_h both_headers (translation_unit macos_build) =
     Inr \<lparr>macros = macos_build(''CPRINTTRACE_SHIM_H'' \<mapsto> Empty_Body),
          decls = {''print_trace_process''}, trace = [plain_include]\<rparr>"
proof -
  have g: "macros (translation_unit macos_build) ''CPRINTTRACE_SHIM_H'' = None"
    by (simp add: translation_unit_def macos_build_def)
  have a: "shim_h_selection (macros (translation_unit macos_build)) = Inr plain_include"
    by (simp add: shim_h_selection_def pp_if_def pp_or_def pp_ident_def translation_unit_def
        macos_build_def)
  show ?thesis
    by (simp add: shim_h_first_inclusion [OF g] a)
      (simp add: pp_exec_def pp_define_def both_headers_def translation_unit_def)
qed

lemma ios_shim_h_macos_run:
  "ios_shim_h both_headers (translation_unit macos_build) =
     Inr \<lparr>macros = macos_build(''CPRINTTRACE_IOS_SHIM_H'' \<mapsto> Empty_Body),
          decls = {''print_trace_process''}, trace = [plain_include]\<rparr>"
proof -
  have g: "macros (translation_unit macos_build) ''CPRINTTRACE_IOS_SHIM_H'' = None"
    by (simp add: translation_unit_def macos_build_def)
  have a: "shim_h_selection (macros (translation_unit macos_build)) = Inr plain_include"
    by (simp add: shim_h_selection_def pp_if_def pp_or_def pp_ident_def translation_unit_def
        macos_build_def)
  show ?thesis
    by (simp add: ios_shim_h_first_inclusion [OF g] a)
      (simp add: pp_exec_def pp_define_def both_headers_def translation_unit_def)
qed

section \<open>The outputs of the selection\<close>

text \<open>
  A flag whose constant is a multiple of \<open>2 ^ 64\<close> is 0 in the 64 bits of the preprocessor:
  the flag is not set and the plain include is kept.
\<close>

lemma multiple_of_two_to_64_counts_as_0:
  "\<not> isAppleMobilePlatform [''TARGET_OS_IOS'' \<mapsto> Int_Body (2 ^ 64)] \<and>
   shim_h_selection [''TARGET_OS_IOS'' \<mapsto> Int_Body (2 ^ 64)] = Inr plain_include"
  by (simp add: isAppleMobilePlatform_def flag_set_def shim_h_selection_def pp_if_def pp_or_def
      pp_ident_def)

lemma overflowing_build_is_not_mobile:
  "platform_flags overflowing_build \<and> \<not> isAppleMobilePlatform overflowing_build"
  by (simp add: platform_flags_def isAppleMobilePlatform_def flag_set_def overflowing_build_def)

text \<open>
  With only the plain header on the search path, the first inclusion of \<^verbatim>\<open>shim.h\<close> on that
  build succeeds through the plain include.
\<close>

lemma shim_h_overflowing_run:
  "shim_h plain_header_only (translation_unit overflowing_build) =
     Inr \<lparr>macros = overflowing_build(''CPRINTTRACE_SHIM_H'' \<mapsto> Empty_Body),
          decls = {''print_trace_process''}, trace = [plain_include]\<rparr>"
proof -
  have g: "macros (translation_unit overflowing_build) ''CPRINTTRACE_SHIM_H'' = None"
    by (simp add: translation_unit_def overflowing_build_def)
  have a: "shim_h_selection (macros (translation_unit overflowing_build)) = Inr plain_include"
    by (simp add: shim_h_selection_def pp_if_def pp_or_def pp_ident_def translation_unit_def
        overflowing_build_def)
  show ?thesis
    by (simp add: shim_h_first_inclusion [OF g] a)
      (simp add: pp_exec_def pp_define_def plain_header_only_def translation_unit_def)
qed

text \<open>The selection on an iOS build and on a macOS build; both directives are outputs, and no other.\<close>

lemma shim_h_selection_ios_build: "shim_h_selection ios_build = Inr framework_style_import"
  by (simp add: shim_h_selection_def pp_if_def pp_or_def pp_ident_def ios_build_def)

lemma shim_h_selection_macos_build: "shim_h_selection macos_build = Inr plain_include"
  by (simp add: shim_h_selection_def pp_if_def pp_or_def pp_ident_def macos_build_def)

lemma platform_flags_builds: "platform_flags ios_build" "platform_flags macos_build"
  by (simp_all add: platform_flags_def ios_build_def macos_build_def)

lemma shim_h_selection_outputs:
  "shim_h_selection ` {m. platform_flags m} = {Inr framework_style_import, Inr plain_include}"
proof -
  have "shim_h_selection m \<in> {Inr framework_style_import, Inr plain_include}"
    if "platform_flags m" for m
    using that by (simp add: shim_h_selection_flags)
  then have sub: "shim_h_selection ` {m. platform_flags m} \<subseteq>
      {Inr framework_style_import, Inr plain_include}"
    by blast
  have "Inr framework_style_import \<in> shim_h_selection ` {m. platform_flags m}"
    by (rule image_eqI [where x = ios_build])
      (simp_all add: shim_h_selection_ios_build platform_flags_builds)
  moreover have "Inr plain_include \<in> shim_h_selection ` {m. platform_flags m}"
    by (rule image_eqI [where x = macos_build])
      (simp_all add: shim_h_selection_macos_build platform_flags_builds)
  ultimately show ?thesis using sub by blast
qed

text \<open>
  Two states in which the selection keeps the same directive: the conditional ends in the
  same diagnostic in both or in neither, and where it succeeds it leaves the macro table as
  it was, adds the declarations of the same header and executes the same directive.
\<close>

lemma ios_conditional_is_conditional: "ios_shim_h_conditional sp s = shim_h_conditional sp s"
  by (simp add: ios_shim_h_conditional_def shim_h_conditional_def ios_selection_is_selection)

lemma conditionals_run_alike:
  assumes d1: "shim_h_selection (macros s1) = Inr d"
    and d2: "shim_h_selection (macros s2) = Inr d"
  shows "(\<forall>e. (shim_h_conditional sp s1 = Inl e) = (shim_h_conditional sp s2 = Inl e)) \<and>
         (\<forall>s1' s2'. shim_h_conditional sp s1 = Inr s1' \<and> shim_h_conditional sp s2 = Inr s2' \<longrightarrow>
            macros s1' = macros s1 \<and> macros s2' = macros s2 \<and>
            trace s1' = trace s1 @ [d] \<and> trace s2' = trace s2 @ [d] \<and>
            (\<exists>ds. sp (directive_path d) = Some ds \<and>
               decls s1' = decls s1 \<union> set ds \<and> decls s2' = decls s2 \<union> set ds))"
  by (auto simp: shim_h_conditional_def d1 d2 pp_exec_Inl pp_exec_Inr)

section \<open>The properties of the specification\<close>

text \<open>
  C1. For every platform flag configuration, the conditional of \<^verbatim>\<open>shim.h\<close> keeps the
  framework-style import \<^verbatim>\<open><PrintTrace/PrintTraceAPI.h>\<close> exactly when at least one of
  \<^verbatim>\<open>TARGET_OS_IOS\<close>, \<^verbatim>\<open>TARGET_OS_TV\<close>, \<^verbatim>\<open>TARGET_OS_WATCH\<close> is set, and the plain include
  \<^verbatim>\<open><PrintTraceAPI.h>\<close> exactly when none is. A flag is set when its value in the 64 bits
  of the preprocessor is not 0.
\<close>

theorem shim_h_selects_by_platform:
  assumes "platform_flags m"
  shows "(shim_h_selection m = Inr framework_style_import) = isAppleMobilePlatform m \<and>
         (shim_h_selection m = Inr plain_include) = (\<not> isAppleMobilePlatform m)"
  by (simp add: shim_h_selection_flags [OF assms])

theorem shim_h_selects_by_platform_witness:
  "platform_flags ios_build \<and> isAppleMobilePlatform ios_build \<and>
   shim_h_selection ios_build = Inr framework_style_import \<and>
   platform_flags macos_build \<and> \<not> isAppleMobilePlatform macos_build \<and>
   shim_h_selection macos_build = Inr plain_include \<and>
   platform_flags overflowing_build \<and> \<not> isAppleMobilePlatform overflowing_build \<and>
   shim_h_selection overflowing_build = Inr plain_include"
proof -
  have i: "platform_flags ios_build" and m: "platform_flags macos_build"
    and v: "platform_flags overflowing_build"
    by (simp_all add: platform_flags_builds overflowing_build_is_not_mobile)
  have "isAppleMobilePlatform ios_build" and "\<not> isAppleMobilePlatform macos_build"
    and "\<not> isAppleMobilePlatform overflowing_build"
    by (simp_all add: isAppleMobilePlatform_def flag_set_def ios_build_def macos_build_def
        overflowing_build_def)
  then show ?thesis
    using i m v shim_h_selects_by_platform [OF i] shim_h_selects_by_platform [OF m]
      shim_h_selects_by_platform [OF v]
    by simp
qed

text \<open>
  C2. The two shims implement the same selector: the selection of \<^verbatim>\<open>shim.h\<close> and the
  selection of \<^verbatim>\<open>ios_shim.h\<close> are the same function of the macro table.
\<close>

theorem shims_select_alike: "shim_h_selection = ios_shim_h_selection"
  by (rule ext) (simp add: shim_h_selection_def ios_shim_h_selection_def)

theorem shims_select_alike_witness:
  "shim_h_selection ios_build = ios_shim_h_selection ios_build \<and>
   ios_shim_h_selection ios_build = Inr framework_style_import"
proof -
  have "ios_shim_h_selection ios_build = Inr framework_style_import"
    by (simp add: ios_shim_h_selection_def pp_if_def pp_or_def pp_ident_def ios_build_def)
  then show ?thesis using shims_select_alike by simp
qed

text \<open>
  C3. For every platform flag configuration exactly one of the two branches is active, in
  \<^verbatim>\<open>shim.h\<close> and in \<^verbatim>\<open>ios_shim.h\<close>: exactly one of the two directives is kept, and the
  conditional behaves as exactly one of the framework-style import and the plain include,
  never as both and never as neither.
\<close>

theorem exactly_one_branch_active:
  assumes "platform_flags (macros s)"
  shows "((shim_h_selection (macros s) = Inr framework_style_import) \<noteq>
          (shim_h_selection (macros s) = Inr plain_include)) \<and>
         ((shim_h_conditional sp s = pp_exec sp framework_style_import s) \<noteq>
          (shim_h_conditional sp s = pp_exec sp plain_include s)) \<and>
         ((ios_shim_h_selection (macros s) = Inr framework_style_import) \<noteq>
          (ios_shim_h_selection (macros s) = Inr plain_include)) \<and>
         ((ios_shim_h_conditional sp s = pp_exec sp framework_style_import s) \<noteq>
          (ios_shim_h_conditional sp s = pp_exec sp plain_include s))"
proof -
  have d: "pp_exec sp plain_include s \<noteq> pp_exec sp framework_style_import s"
    using pp_exec_branches_differ [of sp s] by simp
  show ?thesis
    by (simp add: shim_h_conditional_flags [OF assms] ios_shim_h_conditional_flags [OF assms]
        ios_selection_is_selection shim_h_selection_flags [OF assms] pp_exec_branches_differ d)
qed

theorem exactly_one_branch_active_witness:
  "platform_flags (macros (translation_unit macos_build)) \<and>
   shim_h_selection (macros (translation_unit macos_build)) = Inr plain_include \<and>
   shim_h_selection (macros (translation_unit macos_build)) \<noteq> Inr framework_style_import \<and>
   shim_h_conditional both_headers (translation_unit macos_build) =
     pp_exec both_headers plain_include (translation_unit macos_build) \<and>
   shim_h_conditional both_headers (translation_unit macos_build) \<noteq>
     pp_exec both_headers framework_style_import (translation_unit macos_build) \<and>
   ios_shim_h_selection (macros (translation_unit macos_build)) = Inr plain_include \<and>
   ios_shim_h_conditional both_headers (translation_unit macos_build) \<noteq>
     pp_exec both_headers framework_style_import (translation_unit macos_build)"
proof -
  have f: "platform_flags (macros (translation_unit macos_build))"
    by (simp add: platform_flags_def translation_unit_def macos_build_def)
  have a: "shim_h_selection (macros (translation_unit macos_build)) = Inr plain_include"
    by (simp add: shim_h_selection_def pp_if_def pp_or_def pp_ident_def translation_unit_def
        macos_build_def)
  have b: "ios_shim_h_selection (macros (translation_unit macos_build)) = Inr plain_include"
    by (simp add: ios_shim_h_selection_def pp_if_def pp_or_def pp_ident_def translation_unit_def
        macos_build_def)
  have c: "shim_h_conditional both_headers (translation_unit macos_build) =
      pp_exec both_headers plain_include (translation_unit macos_build)"
    by (simp add: shim_h_conditional_def a)
  have e: "ios_shim_h_conditional both_headers (translation_unit macos_build) =
      pp_exec both_headers plain_include (translation_unit macos_build)"
    by (simp add: ios_shim_h_conditional_def b)
  show ?thesis
    using f a b c e exactly_one_branch_active [OF f, of both_headers] by simp
qed

text \<open>
  C4. When the flags say iOS, tvOS or watchOS and the framework header is on no search
  path, \<^verbatim>\<open>shim.h\<close> does not fall back to the plain header, whether that header can be found
  or not: the plain include is not kept, and the conditional, and with it the first
  inclusion of the header, ends in the missing-file error for
  \<^verbatim>\<open><PrintTrace/PrintTraceAPI.h>\<close>.
\<close>

theorem no_fallback_to_plain_header:
  assumes "platform_flags (macros s)"
    and "isAppleMobilePlatform (macros s)"
    and "sp ''PrintTrace/PrintTraceAPI.h'' = None"
  shows "shim_h_selection (macros s) \<noteq> Inr plain_include \<and>
         shim_h_conditional sp s = Inl (File_Not_Found ''PrintTrace/PrintTraceAPI.h'') \<and>
         (macros s ''CPRINTTRACE_SHIM_H'' = None \<longrightarrow>
            shim_h sp s = Inl (File_Not_Found ''PrintTrace/PrintTraceAPI.h''))"
proof -
  have sel: "shim_h_selection (macros s) = Inr framework_style_import"
    using assms(2) by (simp add: shim_h_selection_flags [OF assms(1)])
  have ex: "pp_exec sp framework_style_import s' = Inl (File_Not_Found ''PrintTrace/PrintTraceAPI.h'')"
    for s'
    using assms(3) by (simp add: pp_exec_def)
  show ?thesis
    by (simp add: sel ex shim_h_conditional_def shim_h_first_inclusion)
qed

theorem no_fallback_to_plain_header_witness:
  "platform_flags (macros (translation_unit ios_build)) \<and>
   isAppleMobilePlatform (macros (translation_unit ios_build)) \<and>
   plain_header_only ''PrintTrace/PrintTraceAPI.h'' = None \<and>
   plain_header_only ''PrintTraceAPI.h'' = Some [''print_trace_process''] \<and>
   macros (translation_unit ios_build) ''CPRINTTRACE_SHIM_H'' = None \<and>
   shim_h plain_header_only (translation_unit ios_build) =
     Inl (File_Not_Found ''PrintTrace/PrintTraceAPI.h'')"
proof -
  have f: "platform_flags (macros (translation_unit ios_build))"
    by (simp add: platform_flags_def translation_unit_def ios_build_def)
  have a: "isAppleMobilePlatform (macros (translation_unit ios_build))"
    by (simp add: isAppleMobilePlatform_def flag_set_def translation_unit_def ios_build_def)
  have n: "plain_header_only ''PrintTrace/PrintTraceAPI.h'' = None"
    by (simp add: plain_header_only_def)
  have p: "plain_header_only ''PrintTraceAPI.h'' = Some [''print_trace_process'']"
    by (simp add: plain_header_only_def)
  have g: "macros (translation_unit ios_build) ''CPRINTTRACE_SHIM_H'' = None"
    by (simp add: translation_unit_def ios_build_def)
  show ?thesis
    using f a n p g
      no_fallback_to_plain_header [of "translation_unit ios_build" plain_header_only, OF f a n]
    by simp
qed

text \<open>
  C5. The selection is a deterministic function of the platform flags with exactly two
  outputs. Over all platform flag configurations the outputs of either shim are the
  framework-style import and the plain include, both of them and no other. In two states
  whose three flags agree, whatever else differs, both shims keep the same directive, and
  the selection has no other effect: the conditionals end in the same diagnostic in both
  states or in neither, and where they succeed they leave the macro table as it was,
  execute the same directive and add the declarations of the same header.
\<close>

theorem selection_depends_on_flags_only:
  assumes "platform_flags (macros s1)"
    and "macros s1 ''TARGET_OS_IOS'' = macros s2 ''TARGET_OS_IOS''"
    and "macros s1 ''TARGET_OS_TV'' = macros s2 ''TARGET_OS_TV''"
    and "macros s1 ''TARGET_OS_WATCH'' = macros s2 ''TARGET_OS_WATCH''"
  shows "shim_h_selection ` {m. platform_flags m} =
           {Inr framework_style_import, Inr plain_include} \<and>
         ios_shim_h_selection ` {m. platform_flags m} =
           {Inr framework_style_import, Inr plain_include} \<and>
         framework_style_import \<noteq> plain_include \<and>
         (\<exists>d. (d = framework_style_import \<or> d = plain_include) \<and>
            shim_h_selection (macros s1) = Inr d \<and> shim_h_selection (macros s2) = Inr d \<and>
            ios_shim_h_selection (macros s1) = Inr d \<and>
            ios_shim_h_selection (macros s2) = Inr d \<and>
            (\<forall>e. (shim_h_conditional sp s1 = Inl e) = (shim_h_conditional sp s2 = Inl e)) \<and>
            (\<forall>e. (ios_shim_h_conditional sp s1 = Inl e) = (ios_shim_h_conditional sp s2 = Inl e)) \<and>
            (\<forall>s1' s2'. (shim_h_conditional sp s1 = Inr s1' \<or> ios_shim_h_conditional sp s1 = Inr s1') \<and>
                 (shim_h_conditional sp s2 = Inr s2' \<or> ios_shim_h_conditional sp s2 = Inr s2') \<longrightarrow>
               macros s1' = macros s1 \<and> macros s2' = macros s2 \<and>
               trace s1' = trace s1 @ [d] \<and> trace s2' = trace s2 @ [d] \<and>
               (\<exists>ds. sp (directive_path d) = Some ds \<and>
                  decls s1' = decls s1 \<union> set ds \<and> decls s2' = decls s2 \<union> set ds)))"
proof -
  have range: "shim_h_selection ` {m. platform_flags m} =
      {Inr framework_style_import, Inr plain_include}"
    by (rule shim_h_selection_outputs)
  have ios: "ios_shim_h_selection = shim_h_selection"
    by (rule ext) (rule ios_selection_is_selection)
  define d where "d = (if isAppleMobilePlatform (macros s1) then framework_style_import
    else plain_include)"
  have d1: "shim_h_selection (macros s1) = Inr d"
    by (simp add: d_def shim_h_selection_flags [OF assms(1)])
  have "shim_h_selection (macros s2) = shim_h_selection (macros s1)"
    using assms(2-4) by (simp add: selection_flags_only [of "macros s1" "macros s2"])
  with d1 have d2: "shim_h_selection (macros s2) = Inr d" by simp
  have two: "d = framework_style_import \<or> d = plain_include"
    by (simp add: d_def)
  note run = conditionals_run_alike [OF d1 d2, of sp]
  from run have err: "\<forall>e. (shim_h_conditional sp s1 = Inl e) = (shim_h_conditional sp s2 = Inl e)"
    by (rule conjunct1)
  from run have ok: "\<forall>s1' s2'. shim_h_conditional sp s1 = Inr s1' \<and>
      shim_h_conditional sp s2 = Inr s2' \<longrightarrow>
        macros s1' = macros s1 \<and> macros s2' = macros s2 \<and>
        trace s1' = trace s1 @ [d] \<and> trace s2' = trace s2 @ [d] \<and>
        (\<exists>ds. sp (directive_path d) = Some ds \<and>
           decls s1' = decls s1 \<union> set ds \<and> decls s2' = decls s2 \<union> set ds)"
    by (rule conjunct2)
  have i1: "ios_shim_h_selection (macros s1) = Inr d"
    and i2: "ios_shim_h_selection (macros s2) = Inr d"
    by (simp_all only: ios d1 d2)
  have ierr: "\<forall>e. (ios_shim_h_conditional sp s1 = Inl e) = (ios_shim_h_conditional sp s2 = Inl e)"
    by (simp only: ios_conditional_is_conditional) (rule err)
  have both: "\<forall>s1' s2'.
      (shim_h_conditional sp s1 = Inr s1' \<or> ios_shim_h_conditional sp s1 = Inr s1') \<and>
      (shim_h_conditional sp s2 = Inr s2' \<or> ios_shim_h_conditional sp s2 = Inr s2') \<longrightarrow>
        macros s1' = macros s1 \<and> macros s2' = macros s2 \<and>
        trace s1' = trace s1 @ [d] \<and> trace s2' = trace s2 @ [d] \<and>
        (\<exists>ds. sp (directive_path d) = Some ds \<and>
           decls s1' = decls s1 \<union> set ds \<and> decls s2' = decls s2 \<union> set ds)"
    by (simp only: ios_conditional_is_conditional disj_absorb) (rule ok)
  have ios_range: "ios_shim_h_selection ` {m. platform_flags m} =
      {Inr framework_style_import, Inr plain_include}"
    by (simp only: ios range)
  have neq: "framework_style_import \<noteq> plain_include" by simp
  show ?thesis
  proof (intro conjI)
    show "\<exists>d. (d = framework_style_import \<or> d = plain_include) \<and>
      shim_h_selection (macros s1) = Inr d \<and> shim_h_selection (macros s2) = Inr d \<and>
      ios_shim_h_selection (macros s1) = Inr d \<and>
      ios_shim_h_selection (macros s2) = Inr d \<and>
      (\<forall>e. (shim_h_conditional sp s1 = Inl e) = (shim_h_conditional sp s2 = Inl e)) \<and>
      (\<forall>e. (ios_shim_h_conditional sp s1 = Inl e) = (ios_shim_h_conditional sp s2 = Inl e)) \<and>
      (\<forall>s1' s2'. (shim_h_conditional sp s1 = Inr s1' \<or> ios_shim_h_conditional sp s1 = Inr s1') \<and>
           (shim_h_conditional sp s2 = Inr s2' \<or> ios_shim_h_conditional sp s2 = Inr s2') \<longrightarrow>
         macros s1' = macros s1 \<and> macros s2' = macros s2 \<and>
         trace s1' = trace s1 @ [d] \<and> trace s2' = trace s2 @ [d] \<and>
         (\<exists>ds. sp (directive_path d) = Some ds \<and>
            decls s1' = decls s1 \<union> set ds \<and> decls s2' = decls s2 \<union> set ds))"
      by (rule exI [of _ d]) (intro conjI two d1 d2 i1 i2 err ierr both)
  qed (fact range ios_range neq)+
qed

theorem selection_depends_on_flags_only_witness:
  "platform_flags (macros (translation_unit ios_build)) \<and>
   shim_h_selection (macros (translation_unit ios_build)) = Inr framework_style_import \<and>
   shim_h_selection (macros later_in_unit) = Inr framework_style_import \<and>
   ios_shim_h_selection (macros later_in_unit) = Inr framework_style_import \<and>
   platform_flags (macros (translation_unit macos_build)) \<and>
   shim_h_selection (macros (translation_unit macos_build)) = Inr plain_include \<and>
   shim_h_selection (macros later_in_macos_unit) = Inr plain_include \<and>
   ios_shim_h_selection (macros later_in_macos_unit) = Inr plain_include \<and>
   shim_h_selection ` {m. platform_flags m} = {Inr framework_style_import, Inr plain_include}"
proof -
  have f: "platform_flags (macros (translation_unit ios_build))"
    and g: "platform_flags (macros (translation_unit macos_build))"
    by (simp_all add: platform_flags_def translation_unit_def ios_build_def macos_build_def)
  have a: "shim_h_selection (macros (translation_unit ios_build)) = Inr framework_style_import"
    and b: "shim_h_selection (macros (translation_unit macos_build)) = Inr plain_include"
    by (simp_all add: translation_unit_def shim_h_selection_ios_build shim_h_selection_macos_build)
  have fi: "macros (translation_unit ios_build) ''TARGET_OS_IOS'' = macros later_in_unit ''TARGET_OS_IOS''"
    "macros (translation_unit ios_build) ''TARGET_OS_TV'' = macros later_in_unit ''TARGET_OS_TV''"
    "macros (translation_unit ios_build) ''TARGET_OS_WATCH'' = macros later_in_unit ''TARGET_OS_WATCH''"
    by (simp_all add: translation_unit_def later_in_unit_def)
  have fm: "macros (translation_unit macos_build) ''TARGET_OS_IOS'' = macros later_in_macos_unit ''TARGET_OS_IOS''"
    "macros (translation_unit macos_build) ''TARGET_OS_TV'' = macros later_in_macos_unit ''TARGET_OS_TV''"
    "macros (translation_unit macos_build) ''TARGET_OS_WATCH'' = macros later_in_macos_unit ''TARGET_OS_WATCH''"
    by (simp_all add: translation_unit_def later_in_macos_unit_def)
  note ti = selection_depends_on_flags_only [OF f fi, of both_headers]
  note tm = selection_depends_on_flags_only [OF g fm, of both_headers]
  from ti have r: "shim_h_selection ` {m. platform_flags m} =
      {Inr framework_style_import, Inr plain_include}"
    by (rule conjunct1)
  from ti obtain d where "shim_h_selection (macros (translation_unit ios_build)) = Inr d"
    and "shim_h_selection (macros later_in_unit) = Inr d"
    and "ios_shim_h_selection (macros later_in_unit) = Inr d"
    by (elim conjE exE)
  with a have i: "shim_h_selection (macros later_in_unit) = Inr framework_style_import"
    "ios_shim_h_selection (macros later_in_unit) = Inr framework_style_import"
    by simp_all
  from tm obtain d where "shim_h_selection (macros (translation_unit macos_build)) = Inr d"
    and "shim_h_selection (macros later_in_macos_unit) = Inr d"
    and "ios_shim_h_selection (macros later_in_macos_unit) = Inr d"
    by (elim conjE exE)
  with b have m: "shim_h_selection (macros later_in_macos_unit) = Inr plain_include"
    "ios_shim_h_selection (macros later_in_macos_unit) = Inr plain_include"
    by simp_all
  from f a i g b m r show ?thesis by (intro conjI)
qed

text \<open>
  C6. Inclusion is idempotent: from any state and on any search path, including
  \<^verbatim>\<open>shim.h\<close> (or \<^verbatim>\<open>ios_shim.h\<close>) more than once in a row gives the result of including it
  once, the same declarations among the rest, since the guard makes every inclusion after
  the first a no-op.
\<close>

theorem inclusion_is_idempotent:
  assumes "1 < n"
  shows "include_times n (shim_h sp) s = include_times 1 (shim_h sp) s \<and>
         include_times n (ios_shim_h sp) s = include_times 1 (ios_shim_h sp) s"
proof -
  from assms obtain k where n: "n = Suc k" by (cases n) auto
  have "include_times (Suc k) (shim_h sp) s = shim_h sp s"
    and "include_times (Suc 0) (shim_h sp) s = shim_h sp s"
    by (rule include_times_guarded, erule shim_h_later_is_noop)+
  moreover have "include_times (Suc k) (ios_shim_h sp) s = ios_shim_h sp s"
    and "include_times (Suc 0) (ios_shim_h sp) s = ios_shim_h sp s"
    by (rule include_times_guarded, erule ios_shim_h_later_is_noop)+
  ultimately show ?thesis by (simp add: n)
qed

theorem inclusion_is_idempotent_witness:
  "(1::nat) < 3 \<and>
   include_times 3 (shim_h both_headers) (translation_unit ios_build) =
     include_times 1 (shim_h both_headers) (translation_unit ios_build) \<and>
   include_times 1 (shim_h both_headers) (translation_unit ios_build) =
     Inr \<lparr>macros = ios_build(''CPRINTTRACE_SHIM_H'' \<mapsto> Empty_Body),
          decls = {''print_trace_process''}, trace = [framework_style_import]\<rparr> \<and>
   include_times 3 (ios_shim_h both_headers) (translation_unit ios_build) =
     include_times 1 (ios_shim_h both_headers) (translation_unit ios_build) \<and>
   include_times 1 (ios_shim_h both_headers) (translation_unit ios_build) =
     Inr \<lparr>macros = ios_build(''CPRINTTRACE_IOS_SHIM_H'' \<mapsto> Empty_Body),
          decls = {''print_trace_process''}, trace = [framework_style_import]\<rparr>"
proof -
  have n: "(1::nat) < 3" by simp
  have "include_times 1 (shim_h both_headers) (translation_unit ios_build) =
      Inr \<lparr>macros = ios_build(''CPRINTTRACE_SHIM_H'' \<mapsto> Empty_Body),
           decls = {''print_trace_process''}, trace = [framework_style_import]\<rparr>"
    and "include_times 1 (ios_shim_h both_headers) (translation_unit ios_build) =
      Inr \<lparr>macros = ios_build(''CPRINTTRACE_IOS_SHIM_H'' \<mapsto> Empty_Body),
           decls = {''print_trace_process''}, trace = [framework_style_import]\<rparr>"
    by (simp_all add: shim_h_ios_run ios_shim_h_ios_run)
  then show ?thesis
    using n inclusion_is_idempotent [OF n, of both_headers "translation_unit ios_build"] by simp
qed

text \<open>
  C7. Changing the platform flags alone switches the header: of two platform flag
  configurations, one an Apple mobile platform and the other not, the same conditional of
  \<^verbatim>\<open>shim.h\<close> resolves to two different header paths.
\<close>

theorem platform_switches_header:
  assumes "platform_flags m1" and "platform_flags m2"
    and "isAppleMobilePlatform m1" and "\<not> isAppleMobilePlatform m2"
  shows "\<exists>d1 d2. shim_h_selection m1 = Inr d1 \<and> shim_h_selection m2 = Inr d2 \<and>
           directive_path d1 \<noteq> directive_path d2"
  using assms(3,4)
  by (simp add: shim_h_selection_flags [OF assms(1)] shim_h_selection_flags [OF assms(2)])

theorem platform_switches_header_witness:
  "platform_flags ios_build \<and> platform_flags macos_build \<and>
   isAppleMobilePlatform ios_build \<and> \<not> isAppleMobilePlatform macos_build \<and>
   (\<exists>d1 d2. shim_h_selection ios_build = Inr d1 \<and> shim_h_selection macos_build = Inr d2 \<and>
      directive_path d1 \<noteq> directive_path d2) \<and>
   platform_flags overflowing_build \<and> \<not> isAppleMobilePlatform overflowing_build \<and>
   (\<exists>d1 d2. shim_h_selection ios_build = Inr d1 \<and>
      shim_h_selection overflowing_build = Inr d2 \<and> directive_path d1 \<noteq> directive_path d2)"
proof -
  have i: "platform_flags ios_build" and m: "platform_flags macos_build"
    and v: "platform_flags overflowing_build"
    by (simp_all add: platform_flags_builds overflowing_build_is_not_mobile)
  have a: "isAppleMobilePlatform ios_build" and b: "\<not> isAppleMobilePlatform macos_build"
    and c: "\<not> isAppleMobilePlatform overflowing_build"
    by (simp_all add: isAppleMobilePlatform_def flag_set_def ios_build_def macos_build_def
        overflowing_build_def)
  show ?thesis
    using i m v a b c platform_switches_header [OF i m a b] platform_switches_header [OF i v a c]
    by simp
qed

text \<open>
  C8. A shim introduces no symbols of its own: after a successful first inclusion of
  \<^verbatim>\<open>shim.h\<close> (or \<^verbatim>\<open>ios_shim.h\<close>), the visible declarations are those visible before and
  those of the API header that the active branch names, and the macro table is the one
  before with the guard of the shim defined; an inclusion with the guard defined adds
  nothing at all.
\<close>

theorem shim_adds_api_and_guard_only:
  "(macros s ''CPRINTTRACE_SHIM_H'' = None \<and> shim_h sp s = Inr s1 \<longrightarrow>
      (\<exists>d ds. shim_h_selection (macros s) = Inr d \<and> sp (directive_path d) = Some ds \<and>
         decls s1 = decls s \<union> set ds \<and>
         macros s1 = (macros s)(''CPRINTTRACE_SHIM_H'' \<mapsto> Empty_Body))) \<and>
   (macros s ''CPRINTTRACE_SHIM_H'' \<noteq> None \<longrightarrow> shim_h sp s = Inr s) \<and>
   (macros s ''CPRINTTRACE_IOS_SHIM_H'' = None \<and> ios_shim_h sp s = Inr s2 \<longrightarrow>
      (\<exists>d ds. ios_shim_h_selection (macros s) = Inr d \<and> sp (directive_path d) = Some ds \<and>
         decls s2 = decls s \<union> set ds \<and>
         macros s2 = (macros s)(''CPRINTTRACE_IOS_SHIM_H'' \<mapsto> Empty_Body))) \<and>
   (macros s ''CPRINTTRACE_IOS_SHIM_H'' \<noteq> None \<longrightarrow> ios_shim_h sp s = Inr s)"
proof (intro conjI impI)
  assume "macros s ''CPRINTTRACE_SHIM_H'' = None \<and> shim_h sp s = Inr s1"
  then have "macros s ''CPRINTTRACE_SHIM_H'' = None" and "shim_h sp s = Inr s1" by simp_all
  from shim_h_first_result [OF this]
  show "\<exists>d ds. shim_h_selection (macros s) = Inr d \<and> sp (directive_path d) = Some ds \<and>
         decls s1 = decls s \<union> set ds \<and>
         macros s1 = (macros s)(''CPRINTTRACE_SHIM_H'' \<mapsto> Empty_Body)"
    by auto
next
  assume "macros s ''CPRINTTRACE_SHIM_H'' \<noteq> None"
  then show "shim_h sp s = Inr s" by (rule shim_h_later_inclusion)
next
  assume "macros s ''CPRINTTRACE_IOS_SHIM_H'' = None \<and> ios_shim_h sp s = Inr s2"
  then have "macros s ''CPRINTTRACE_IOS_SHIM_H'' = None" and "ios_shim_h sp s = Inr s2"
    by simp_all
  from ios_shim_h_first_result [OF this]
  show "\<exists>d ds. ios_shim_h_selection (macros s) = Inr d \<and> sp (directive_path d) = Some ds \<and>
         decls s2 = decls s \<union> set ds \<and>
         macros s2 = (macros s)(''CPRINTTRACE_IOS_SHIM_H'' \<mapsto> Empty_Body)"
    by (auto simp: ios_selection_is_selection)
next
  assume "macros s ''CPRINTTRACE_IOS_SHIM_H'' \<noteq> None"
  then show "ios_shim_h sp s = Inr s" by (rule ios_shim_h_later_inclusion)
qed

theorem shim_adds_api_and_guard_only_witness:
  "macros (translation_unit macos_build) ''CPRINTTRACE_SHIM_H'' = None \<and>
   shim_h both_headers (translation_unit macos_build) =
     Inr \<lparr>macros = macos_build(''CPRINTTRACE_SHIM_H'' \<mapsto> Empty_Body),
          decls = {''print_trace_process''}, trace = [plain_include]\<rparr> \<and>
   macros (translation_unit macos_build) ''CPRINTTRACE_IOS_SHIM_H'' = None \<and>
   ios_shim_h both_headers (translation_unit macos_build) =
     Inr \<lparr>macros = macos_build(''CPRINTTRACE_IOS_SHIM_H'' \<mapsto> Empty_Body),
          decls = {''print_trace_process''}, trace = [plain_include]\<rparr> \<and>
   (\<exists>d ds. shim_h_selection (macros (translation_unit macos_build)) = Inr d \<and>
      both_headers (directive_path d) = Some ds \<and>
      {''print_trace_process''} = decls (translation_unit macos_build) \<union> set ds) \<and>
   (\<exists>d ds. ios_shim_h_selection (macros (translation_unit macos_build)) = Inr d \<and>
      both_headers (directive_path d) = Some ds \<and>
      {''print_trace_process''} = decls (translation_unit macos_build) \<union> set ds)"
proof -
  have g: "macros (translation_unit macos_build) ''CPRINTTRACE_SHIM_H'' = None"
    and gi: "macros (translation_unit macos_build) ''CPRINTTRACE_IOS_SHIM_H'' = None"
    by (simp_all add: translation_unit_def macos_build_def)
  show ?thesis
    using g gi shim_h_macos_run ios_shim_h_macos_run
      shim_adds_api_and_guard_only [of "translation_unit macos_build" both_headers
        "\<lparr>macros = macos_build(''CPRINTTRACE_SHIM_H'' \<mapsto> Empty_Body),
          decls = {''print_trace_process''}, trace = [plain_include]\<rparr>"
        "\<lparr>macros = macos_build(''CPRINTTRACE_IOS_SHIM_H'' \<mapsto> Empty_Body),
          decls = {''print_trace_process''}, trace = [plain_include]\<rparr>"]
    by auto
qed

text \<open>
  C9. When none of \<^verbatim>\<open>TARGET_OS_IOS\<close>, \<^verbatim>\<open>TARGET_OS_TV\<close>, \<^verbatim>\<open>TARGET_OS_WATCH\<close> is a macro,
  each counts as 0 and both shims take the plain include \<^verbatim>\<open><PrintTraceAPI.h>\<close>.
\<close>

theorem plain_include_is_default:
  assumes "macros s ''TARGET_OS_IOS'' = None"
    and "macros s ''TARGET_OS_TV'' = None"
    and "macros s ''TARGET_OS_WATCH'' = None"
  shows "shim_h_selection (macros s) = Inr plain_include \<and>
         ios_shim_h_selection (macros s) = Inr plain_include \<and>
         shim_h_conditional sp s = pp_exec sp plain_include s \<and>
         ios_shim_h_conditional sp s = pp_exec sp plain_include s"
proof -
  have "shim_h_selection (macros s) = Inr plain_include"
    using assms by (simp add: shim_h_selection_def pp_if_def pp_or_def pp_ident_def)
  then show ?thesis
    by (simp add: ios_selection_is_selection shim_h_conditional_def ios_shim_h_conditional_def)
qed

theorem plain_include_is_default_witness:
  "macros (translation_unit linux_build) ''TARGET_OS_IOS'' = None \<and>
   macros (translation_unit linux_build) ''TARGET_OS_TV'' = None \<and>
   macros (translation_unit linux_build) ''TARGET_OS_WATCH'' = None \<and>
   shim_h_selection (macros (translation_unit linux_build)) = Inr plain_include \<and>
   ios_shim_h_selection (macros (translation_unit linux_build)) = Inr plain_include \<and>
   shim_h_conditional plain_header_only (translation_unit linux_build) =
     Inr \<lparr>macros = linux_build, decls = {''print_trace_process''}, trace = [plain_include]\<rparr> \<and>
   ios_shim_h_conditional plain_header_only (translation_unit linux_build) =
     Inr \<lparr>macros = linux_build, decls = {''print_trace_process''}, trace = [plain_include]\<rparr>"
proof -
  have a: "macros (translation_unit linux_build) ''TARGET_OS_IOS'' = None"
    and b: "macros (translation_unit linux_build) ''TARGET_OS_TV'' = None"
    and c: "macros (translation_unit linux_build) ''TARGET_OS_WATCH'' = None"
    by (simp_all add: translation_unit_def linux_build_def)
  have "pp_exec plain_header_only plain_include (translation_unit linux_build) =
      Inr \<lparr>macros = linux_build, decls = {''print_trace_process''}, trace = [plain_include]\<rparr>"
    by (simp add: pp_exec_def plain_header_only_def translation_unit_def)
  then show ?thesis
    using a b c plain_include_is_default [OF a b c, of plain_header_only] by simp
qed

text \<open>
  C10. The guards \<^verbatim>\<open>CPRINTTRACE_SHIM_H\<close> and \<^verbatim>\<open>CPRINTTRACE_IOS_SHIM_H\<close> are distinct, so
  neither shim suppresses or alters the other, in either order: when both guards are
  undefined and one shim has been included, the guard of the other is still undefined, and
  the first inclusion of the other succeeds, defines its own guard and executes the
  directive its selection names on the flags of the start.
\<close>

theorem shims_do_not_suppress_each_other:
  assumes "macros s ''CPRINTTRACE_SHIM_H'' = None"
    and "macros s ''CPRINTTRACE_IOS_SHIM_H'' = None"
  shows "(shim_h sp s = Inr s1 \<longrightarrow>
            macros s1 ''CPRINTTRACE_IOS_SHIM_H'' = None \<and>
            (\<exists>d s2. ios_shim_h_selection (macros s) = Inr d \<and> ios_shim_h sp s1 = Inr s2 \<and>
               trace s2 = trace s1 @ [d] \<and>
               macros s2 = (macros s1)(''CPRINTTRACE_IOS_SHIM_H'' \<mapsto> Empty_Body))) \<and>
         (ios_shim_h sp s = Inr s1' \<longrightarrow>
            macros s1' ''CPRINTTRACE_SHIM_H'' = None \<and>
            (\<exists>d s2. shim_h_selection (macros s) = Inr d \<and> shim_h sp s1' = Inr s2 \<and>
               trace s2 = trace s1' @ [d] \<and>
               macros s2 = (macros s1')(''CPRINTTRACE_SHIM_H'' \<mapsto> Empty_Body)))"
  using ios_shim_h_after_shim_h [OF assms, of sp s1] shim_h_after_ios_shim_h [OF assms, of sp s1']
  by blast

theorem shims_do_not_suppress_each_other_witness:
  "macros (translation_unit ios_build) ''CPRINTTRACE_SHIM_H'' = None \<and>
   macros (translation_unit ios_build) ''CPRINTTRACE_IOS_SHIM_H'' = None \<and>
   shim_h both_headers (translation_unit ios_build) =
     Inr \<lparr>macros = ios_build(''CPRINTTRACE_SHIM_H'' \<mapsto> Empty_Body),
          decls = {''print_trace_process''}, trace = [framework_style_import]\<rparr> \<and>
   (\<exists>s2. ios_shim_h both_headers
            \<lparr>macros = ios_build(''CPRINTTRACE_SHIM_H'' \<mapsto> Empty_Body),
             decls = {''print_trace_process''}, trace = [framework_style_import]\<rparr> = Inr s2 \<and>
          trace s2 = [framework_style_import, framework_style_import]) \<and>
   ios_shim_h both_headers (translation_unit ios_build) =
     Inr \<lparr>macros = ios_build(''CPRINTTRACE_IOS_SHIM_H'' \<mapsto> Empty_Body),
          decls = {''print_trace_process''}, trace = [framework_style_import]\<rparr> \<and>
   (\<exists>s2. shim_h both_headers
            \<lparr>macros = ios_build(''CPRINTTRACE_IOS_SHIM_H'' \<mapsto> Empty_Body),
             decls = {''print_trace_process''}, trace = [framework_style_import]\<rparr> = Inr s2 \<and>
          trace s2 = [framework_style_import, framework_style_import])"
proof -
  have g: "macros (translation_unit ios_build) ''CPRINTTRACE_SHIM_H'' = None"
    and gi: "macros (translation_unit ios_build) ''CPRINTTRACE_IOS_SHIM_H'' = None"
    by (simp_all add: translation_unit_def ios_build_def)
  have a: "ios_shim_h_selection (macros (translation_unit ios_build)) = Inr framework_style_import"
    and b: "shim_h_selection (macros (translation_unit ios_build)) = Inr framework_style_import"
    by (simp_all add: ios_shim_h_selection_def shim_h_selection_def pp_if_def pp_or_def
        pp_ident_def translation_unit_def ios_build_def)
  show ?thesis
    using g gi a b shim_h_ios_run ios_shim_h_ios_run
      shims_do_not_suppress_each_other [OF g gi, of both_headers
        "\<lparr>macros = ios_build(''CPRINTTRACE_SHIM_H'' \<mapsto> Empty_Body),
          decls = {''print_trace_process''}, trace = [framework_style_import]\<rparr>"
        "\<lparr>macros = ios_build(''CPRINTTRACE_IOS_SHIM_H'' \<mapsto> Empty_Body),
          decls = {''print_trace_process''}, trace = [framework_style_import]\<rparr>"]
    by auto
qed

end
